theory Spec2Isabelle
  imports Main
begin

section \<open>Values\<close>

text \<open>
  A JavaScript number is an IEEE double. \<open>Finite m e\<close> is the finite double \<open>m * 2 ^ e\<close>
  (a double has \<open>\<bar>m\<bar> < 2 ^ 53\<close> and \<open>- 1074 \<le> e \<le> 971\<close>; it is zero when \<open>m = 0\<close>),
  \<open>NegZero\<close> is \<^verbatim>\<open>-0\<close>, and \<open>Infinity\<close> and \<open>NegInfinity\<close> are what \<^verbatim>\<open>JSON.parse\<close>
  returns for a literal beyond the range of the doubles, such as \<^verbatim>\<open>1e400\<close> and
  \<^verbatim>\<open>-1e400\<close>. \<^verbatim>\<open>JSON.parse\<close> never returns NaN.
\<close>

datatype number = Finite int int | NegZero | Infinity | NegInfinity

text \<open>
  The values that \<^verbatim>\<open>JSON.parse\<close> returns. An object is the list of its properties in
  order.
\<close>

datatype json =
    JNull
  | JBool bool
  | JNum number
  | JStr string
  | JArr "json list"
  | JObj "(string \<times> json) list"

text \<open>JavaScript truthiness (\<^verbatim>\<open>!x\<close> is its negation) of a parsed JSON value.\<close>

fun truthy :: "json \<Rightarrow> bool" where
  "truthy JNull = False"
| "truthy (JBool b) = b"
| "truthy (JNum n) =
     (case n of Finite m e \<Rightarrow> m \<noteq> 0 | NegZero \<Rightarrow> False | Infinity \<Rightarrow> True | NegInfinity \<Rightarrow> True)"
| "truthy (JStr s) = (s \<noteq> [])"
| "truthy (JArr xs) = True"
| "truthy (JObj ps) = True"

text \<open>
  \<^verbatim>\<open>JSON.stringify\<close>, up to the spelling of the text: the result is the value that the
  written text denotes, which is what the receiving client parses. An infinite number is
  written as \<^verbatim>\<open>null\<close> and \<^verbatim>\<open>-0\<close> as \<^verbatim>\<open>0\<close>; every other finite number is written with
  digits that read back as the same double; strings, booleans, \<^verbatim>\<open>null\<close>, and the
  structure of arrays and objects are kept.
\<close>

primrec stringify :: "json \<Rightarrow> json" where
  "stringify JNull = JNull"
| "stringify (JBool b) = JBool b"
| "stringify (JNum n) =
     (case n of
        Finite m e \<Rightarrow> JNum (Finite m e)
      | NegZero \<Rightarrow> JNum (Finite 0 0)
      | Infinity \<Rightarrow> JNull
      | NegInfinity \<Rightarrow> JNull)"
| "stringify (JStr s) = JStr s"
| "stringify (JArr xs) = JArr (map stringify xs)"
| "stringify (JObj ps) = JObj (map (map_prod id stringify) ps)"

text \<open>A value in which every number is finite and none is \<^verbatim>\<open>-0\<close>.\<close>

fun plain_numbers :: "json \<Rightarrow> bool" where
  "plain_numbers (JNum n) = (case n of Finite m e \<Rightarrow> True | _ \<Rightarrow> False)"
| "plain_numbers (JArr xs) = (\<forall>x \<in> set xs. plain_numbers x)"
| "plain_numbers (JObj ps) = (\<forall>p \<in> set ps. plain_numbers (snd p))"
| "plain_numbers v = True"

section \<open>The key directory: \<^verbatim>\<open>const publicKeys = {}\<close>\<close>

text \<open>
  \<^verbatim>\<open>publicKeys\<close> is a plain object literal, so its prototype is \<^verbatim>\<open>Object.prototype\<close>.
  The model keeps the own properties as a map; a property read falls through to the
  prototype when there is no own property of that name. The request body of
  \<^verbatim>\<open>POST /register\<close> carries \<^verbatim>\<open>userId\<close> and \<^verbatim>\<open>publicKey\<close> as strings (the documented
  format), either of which may be absent.
\<close>

datatype jsval =
    Undefined
  | Str string
  | Function string
  | ObjectPrototype

text \<open>The function-valued properties of \<^verbatim>\<open>Object.prototype\<close>.\<close>

definition prototype_functions :: "string list" where
  "prototype_functions =
     [''constructor'', ''hasOwnProperty'', ''isPrototypeOf'', ''propertyIsEnumerable'',
      ''toLocaleString'', ''toString'', ''valueOf'', ''__defineGetter__'',
      ''__defineSetter__'', ''__lookupGetter__'', ''__lookupSetter__'']"

text \<open>\<^verbatim>\<open>obj[k]\<close> on an object with own properties \<open>own\<close> and prototype \<^verbatim>\<open>Object.prototype\<close>.\<close>

definition get_property :: "(string \<rightharpoonup> string) \<Rightarrow> string \<Rightarrow> jsval" where
  "get_property own k =
     (case own k of
        Some v \<Rightarrow> Str v
      | None \<Rightarrow>
          if k = ''__proto__'' then ObjectPrototype
          else if k \<in> set prototype_functions then Function k
          else Undefined)"

text \<open>
  \<^verbatim>\<open>obj[k] = v\<close> for a string \<open>v\<close>. Every name becomes (or overwrites) an own property,
  except \<^verbatim>\<open>__proto__\<close>: that is the accessor of \<^verbatim>\<open>Object.prototype\<close>, whose setter
  ignores a value that is neither an object nor null.
\<close>

definition set_property :: "(string \<rightharpoonup> string) \<Rightarrow> string \<Rightarrow> string \<Rightarrow> (string \<rightharpoonup> string)" where
  "set_property own k v = (if k = ''__proto__'' then own else own(k \<mapsto> v))"

fun truthy_val :: "jsval \<Rightarrow> bool" where
  "truthy_val Undefined = False"
| "truthy_val (Str s) = (s \<noteq> [])"
| "truthy_val (Function f) = True"
| "truthy_val ObjectPrototype = True"

text \<open>An HTTP response: the status and the JSON body written by \<^verbatim>\<open>res.json\<close>.\<close>

datatype response = Response nat json

text \<open>
  \<^verbatim>\<open>JSON.stringify({ userId, publicKey: k })\<close>: a property whose value is a function is
  left out, and \<^verbatim>\<open>Object.prototype\<close> (no enumerable own property) is written as \<^verbatim>\<open>{}\<close>.
\<close>

fun key_body :: "string \<Rightarrow> jsval \<Rightarrow> json" where
  "key_body u (Str v) = JObj [(''userId'', JStr u), (''publicKey'', JStr v)]"
| "key_body u ObjectPrototype = JObj [(''userId'', JStr u), (''publicKey'', JObj [])]"
| "key_body u (Function f) = JObj [(''userId'', JStr u)]"
| "key_body u Undefined = JObj [(''userId'', JStr u)]"

record register_body =
  body_userId :: "string option"
  body_publicKey :: "string option"

text \<open>\<^verbatim>\<open>app.post('/register', ...)\<close>: the new own properties and the response.\<close>

definition post_register ::
  "(string \<rightharpoonup> string) \<Rightarrow> register_body \<Rightarrow> (string \<rightharpoonup> string) \<times> response" where
  "post_register publicKeys body =
     (case (body_userId body, body_publicKey body) of
        (Some u, Some k) \<Rightarrow>
          if u = [] \<or> k = []
          then (publicKeys, Response 400 (JObj [(''error'', JStr ''userId and publicKey required'')]))
          else (set_property publicKeys u k, Response 200 (JObj [(''ok'', JBool True)]))
      | _ \<Rightarrow> (publicKeys, Response 400 (JObj [(''error'', JStr ''userId and publicKey required'')])))"

text \<open>\<^verbatim>\<open>app.get('/keys/:userId', ...)\<close>.\<close>

definition get_key :: "(string \<rightharpoonup> string) \<Rightarrow> string \<Rightarrow> response" where
  "get_key publicKeys u =
     (let k = get_property publicKeys u in
      if \<not> truthy_val k then Response 404 (JObj [(''error'', JStr ''not found'')])
      else Response 200 (key_body u k))"

section \<open>Connections and the registry\<close>

text \<open>
  A connection handle stands for a WebSocket object. Each object carries its
  \<^verbatim>\<open>readyState\<close> and \<^verbatim>\<open>isAlive\<close>, the \<^verbatim>\<open>userId\<close> variable of its handler closure, the
  frames passed to its \<^verbatim>\<open>send\<close> in order (each one as the value that the text written
  by \<^verbatim>\<open>JSON.stringify\<close> denotes), and the number of pings sent to it.
\<close>

type_synonym conn = nat

datatype ready_state = CONNECTING | OPEN | CLOSING | CLOSED

record socket =
  userId :: "string option"
  isAlive :: bool
  readyState :: ready_state
  sent :: "json list"
  pings :: nat

text \<open>
  The server: \<^verbatim>\<open>clients\<close> is the \<^verbatim>\<open>Map\<close> from userId to WebSocket, \<^verbatim>\<open>wss_clients\<close> is
  \<^verbatim>\<open>wss.clients\<close> in insertion order, \<open>socks\<close> is the store of WebSocket objects and
  \<open>next_conn\<close> the next unused handle.
\<close>

record server =
  clients :: "string \<rightharpoonup> conn"
  socks :: "conn \<Rightarrow> socket"
  wss_clients :: "conn list"
  next_conn :: conn

definition new_socket :: socket where
  "new_socket = \<lparr>userId = None, isAlive = True, readyState = OPEN, sent = [], pings = 0\<rparr>"

definition init :: server where
  "init = \<lparr>clients = Map.empty, socks = (\<lambda>c. new_socket), wss_clients = [], next_conn = 0\<rparr>"

definition upd_sock :: "server \<Rightarrow> conn \<Rightarrow> (socket \<Rightarrow> socket) \<Rightarrow> server" where
  "upd_sock s ws f = s\<lparr>socks := (socks s)(ws := f (socks s ws))\<rparr>"

text \<open>\<^verbatim>\<open>ws.send(text)\<close>: the frame is appended to the log of \<open>ws\<close>.\<close>

definition ws_send :: "server \<Rightarrow> conn \<Rightarrow> json \<Rightarrow> server" where
  "ws_send s ws frame = upd_sock s ws (\<lambda>k. k\<lparr>sent := sent k @ [frame]\<rparr>)"

definition error_frame :: "string \<Rightarrow> json" where
  "error_frame m = JObj [(''type'', JStr ''error''), (''message'', JStr m)]"

definition identified_frame :: "string \<Rightarrow> json" where
  "identified_frame u = JObj [(''type'', JStr ''identified''), (''userId'', JStr u)]"

definition message_frame :: "json \<Rightarrow> json" where
  "message_frame payload = JObj [(''type'', JStr ''message''), (''payload'', payload)]"

definition sent_frame :: "string \<Rightarrow> json" where
  "sent_frame u = JObj [(''type'', JStr ''sent''), (''to'', JStr u)]"

definition offline_frame :: "string \<Rightarrow> json" where
  "offline_frame u = JObj [(''type'', JStr ''offline''), (''to'', JStr u)]"

definition pong_frame :: json where
  "pong_frame = JObj [(''type'', JStr ''pong'')]"

section \<open>The message handler\<close>

text \<open>
  What \<^verbatim>\<open>JSON.parse(data.toString())\<close> gives: it throws (\<open>SyntaxError\<close>), or returns
  \<^verbatim>\<open>null\<close>, on which \<^verbatim>\<open>msg.type\<close> throws a TypeError inside the same \<^verbatim>\<open>try\<close>, or returns
  any other value. Of that value the handler reads four properties. \<open>mtype\<close> is
  \<^verbatim>\<open>msg.type\<close> when it is a string (it is only compared with \<^verbatim>\<open>===\<close> to string
  literals); \<open>muserId\<close> and \<open>mto\<close> are the identifiers, strings as in the documented
  format; \<open>mpayload\<close> is any JSON value. An absent property is \<open>None\<close>; a parsed number,
  string, boolean or array has none of the four.
\<close>

record msg =
  mtype :: "string option"
  muserId :: "string option"
  mto :: "string option"
  mpayload :: "json option"

datatype parsed = SyntaxError | Null | Value msg

text \<open>The \<^verbatim>\<open>identify\<close> branch (\<^verbatim>\<open>!msg.userId\<close> holds of an absent or empty string).\<close>

definition on_identify :: "server \<Rightarrow> conn \<Rightarrow> msg \<Rightarrow> server" where
  "on_identify s ws m =
     (case muserId m of
        None \<Rightarrow> ws_send s ws (stringify (error_frame ''identify requires userId''))
      | Some u \<Rightarrow>
          if u = [] then ws_send s ws (stringify (error_frame ''identify requires userId''))
          else
            let s1 = upd_sock s ws (\<lambda>k. k\<lparr>userId := Some u\<rparr>);
                s2 = s1\<lparr>clients := (clients s1)(u \<mapsto> ws)\<rparr>
            in ws_send s2 ws (stringify (identified_frame u)))"

text \<open>The \<^verbatim>\<open>send\<close> branch.\<close>

definition on_send :: "server \<Rightarrow> conn \<Rightarrow> msg \<Rightarrow> server" where
  "on_send s ws m =
     (case (mto m, mpayload m) of
        (Some to, Some payload) \<Rightarrow>
          if to = [] \<or> \<not> truthy payload
          then ws_send s ws (stringify (error_frame ''send requires to and payload''))
          else
            (case clients s to of
               Some dest \<Rightarrow>
                 if readyState (socks s dest) = OPEN
                 then ws_send (ws_send s dest (stringify (message_frame payload))) ws (stringify (sent_frame to))
                 else ws_send s ws (stringify (offline_frame to))
             | None \<Rightarrow> ws_send s ws (stringify (offline_frame to)))
      | _ \<Rightarrow> ws_send s ws (stringify (error_frame ''send requires to and payload'')))"

text \<open>\<^verbatim>\<open>ws.on('message', ...)\<close>, with its \<^verbatim>\<open>catch\<close> block.\<close>

definition on_message :: "server \<Rightarrow> conn \<Rightarrow> parsed \<Rightarrow> server" where
  "on_message s ws data =
     (case data of
        SyntaxError \<Rightarrow> ws_send s ws (stringify (error_frame ''invalid JSON''))
      | Null \<Rightarrow> ws_send s ws (stringify (error_frame ''invalid JSON''))
      | Value m \<Rightarrow>
          if mtype m = Some ''identify'' then on_identify s ws m
          else if mtype m = Some ''send'' then on_send s ws m
          else if mtype m = Some ''ping'' then ws_send s ws (stringify pong_frame)
          else ws_send s ws (stringify (error_frame ''unknown message type'')))"

section \<open>Connection, pong, close and the heartbeat\<close>

text \<open>
  \<^verbatim>\<open>wss.on('connection', ...)\<close>: the library has made a new WebSocket object, open and
  a member of \<^verbatim>\<open>wss.clients\<close>; the handler sets \<^verbatim>\<open>userId = null\<close> and \<^verbatim>\<open>isAlive = true\<close>.
\<close>

definition on_connection :: "server \<Rightarrow> server" where
  "on_connection s =
     (let ws = next_conn s in
      s\<lparr>socks := (socks s)(ws := new_socket),
        wss_clients := wss_clients s @ [ws],
        next_conn := Suc ws\<rparr>)"

text \<open>\<^verbatim>\<open>ws.on('pong', ...)\<close>.\<close>

definition on_pong :: "server \<Rightarrow> conn \<Rightarrow> server" where
  "on_pong s ws = upd_sock s ws (\<lambda>k. k\<lparr>isAlive := True\<rparr>)"

text \<open>\<^verbatim>\<open>ws.on('close', ...)\<close>: the guarded removal.\<close>

definition on_close :: "server \<Rightarrow> conn \<Rightarrow> server" where
  "on_close s ws =
     (case userId (socks s ws) of
        None \<Rightarrow> s
      | Some u \<Rightarrow>
          if u \<noteq> [] \<and> clients s u = Some ws
          then s\<lparr>clients := (clients s)(u := None)\<rparr>
          else s)"

text \<open>
  What the library does when a connection closes, before the handler above runs: the
  object becomes \<open>CLOSED\<close> and leaves \<^verbatim>\<open>wss.clients\<close>.
\<close>

definition ws_closed :: "server \<Rightarrow> conn \<Rightarrow> server" where
  "ws_closed s ws =
     (upd_sock s ws (\<lambda>k. k\<lparr>readyState := CLOSED\<rparr>))\<lparr>wss_clients := removeAll ws (wss_clients s)\<rparr>"

definition close_conn :: "server \<Rightarrow> conn \<Rightarrow> server" where
  "close_conn s ws = on_close (ws_closed s ws) ws"

text \<open>
  \<^verbatim>\<open>ws.terminate()\<close>: the library destroys the socket; the object is \<open>CLOSING\<close> until its
  close event. \<^verbatim>\<open>ws.ping(() => {})\<close> sends a probe.
\<close>

definition terminate :: "server \<Rightarrow> conn \<Rightarrow> server" where
  "terminate s ws =
     (if readyState (socks s ws) = CLOSED then s
      else upd_sock s ws (\<lambda>k. k\<lparr>readyState := CLOSING\<rparr>))"

definition ws_ping :: "server \<Rightarrow> conn \<Rightarrow> server" where
  "ws_ping s ws = upd_sock s ws (\<lambda>k. k\<lparr>pings := Suc (pings k)\<rparr>)"

text \<open>The body of the \<^verbatim>\<open>forEach\<close> of the heartbeat, and one tick of the interval.\<close>

definition beat :: "server \<Rightarrow> conn \<Rightarrow> server" where
  "beat s ws =
     (if isAlive (socks s ws) = False then terminate s ws
      else ws_ping (upd_sock s ws (\<lambda>k. k\<lparr>isAlive := False\<rparr>)) ws)"

fun for_each :: "server \<Rightarrow> conn list \<Rightarrow> server" where
  "for_each s [] = s"
| "for_each s (ws # rest) = for_each (beat s ws) rest"

definition heartbeat :: "server \<Rightarrow> server" where
  "heartbeat s = for_each s (wss_clients s)"

section \<open>Events\<close>

text \<open>
  The server runs one handler at a time. Message, pong and close events come only from
  a connection that is in \<^verbatim>\<open>wss.clients\<close>.
\<close>

datatype event =
    Connection
  | Message conn parsed
  | Pong conn
  | Close conn
  | Tick

fun step :: "server \<Rightarrow> event \<Rightarrow> server" where
  "step s Connection = on_connection s"
| "step s (Message ws data) = (if ws \<in> set (wss_clients s) then on_message s ws data else s)"
| "step s (Pong ws) = (if ws \<in> set (wss_clients s) then on_pong s ws else s)"
| "step s (Close ws) = (if ws \<in> set (wss_clients s) then close_conn s ws else s)"
| "step s Tick = heartbeat s"

fun run :: "server \<Rightarrow> event list \<Rightarrow> server" where
  "run s [] = s"
| "run s (e # es) = run (step s e) es"

text \<open>The frames a client sends.\<close>

definition identify :: "string \<Rightarrow> parsed" where
  "identify u = Value \<lparr>mtype = Some ''identify'', muserId = Some u, mto = None, mpayload = None\<rparr>"

definition send_to :: "string \<Rightarrow> json \<Rightarrow> parsed" where
  "send_to u p = Value \<lparr>mtype = Some ''send'', muserId = None, mto = Some u, mpayload = Some p\<rparr>"


definition ping_frame :: parsed where
  "ping_frame = Value \<lparr>mtype = Some ''ping'', muserId = None, mto = None, mpayload = None\<rparr>"

section \<open>Predicates on events and states\<close>

text \<open>
  \<open>registering u e\<close> is the connection that event \<open>e\<close> registers under \<open>u\<close>, if \<open>e\<close> is
  an identify frame for \<open>u\<close>.
\<close>

fun registering :: "string \<Rightarrow> event \<Rightarrow> conn option" where
  "registering u (Message c (Value m)) =
     (if mtype m = Some ''identify'' \<and> muserId m = Some u then Some c else None)"
| "registering u e = None"

text \<open>
  \<open>quiet c e\<close>: the event is neither a pong from \<open>c\<close>, nor the close of \<open>c\<close>, nor a tick
  of the heartbeat.
\<close>

fun quiet :: "conn \<Rightarrow> event \<Rightarrow> bool" where
  "quiet c (Pong w) = (w \<noteq> c)"
| "quiet c (Close w) = (w \<noteq> c)"
| "quiet c Tick = False"
| "quiet c e = True"

text \<open>What one pass of the heartbeat does to the object it visits.\<close>

definition beat_sock :: "socket \<Rightarrow> socket" where
  "beat_sock k =
     (if isAlive k = False
      then (if readyState k = CLOSED then k else k\<lparr>readyState := CLOSING\<rparr>)
      else k\<lparr>isAlive := False, pings := Suc (pings k)\<rparr>)"

text \<open>
  The invariant of the reachable states: no empty userId is registered or bound, and
  \<^verbatim>\<open>wss.clients\<close> holds each connection once, all of them handed out already.
\<close>

definition server_inv :: "server \<Rightarrow> bool" where
  "server_inv s \<longleftrightarrow>
     (\<forall>u c. clients s u = Some c \<longrightarrow> u \<noteq> []) \<and>
     (\<forall>c u. userId (socks s c) = Some u \<longrightarrow> u \<noteq> []) \<and>
     distinct (wss_clients s) \<and>
     (\<forall>c \<in> set (wss_clients s). c < next_conn s)"

text \<open>An open connection that has been probed and has not answered yet.\<close>

definition awaiting :: "conn \<Rightarrow> server \<Rightarrow> bool" where
  "awaiting c s \<longleftrightarrow>
     server_inv s \<and> c \<in> set (wss_clients s) \<and> isAlive (socks s c) = False
     \<and> readyState (socks s c) = OPEN"

section \<open>Sample runs\<close>

definition sample_payload :: json where
  "sample_payload =
     JObj [(''ciphertext'', JStr ''Zm9v''), (''nonce'', JStr ''YmFy''), (''sender'', JStr ''alice'')]"

definition two_conns :: server where
  "two_conns = run init [Connection, Connection]"

definition bob_online :: server where
  "bob_online = run init [Connection, Connection, Message 1 (identify ''bob'')]"

definition bob_terminated :: server where
  "bob_terminated = run init [Connection, Connection, Message 1 (identify ''bob''), Tick, Tick]"

definition alice_identified :: server where
  "alice_identified = run init [Connection, Message 0 (identify ''alice'')]"

definition alice_and_guest :: server where
  "alice_and_guest = run init [Connection, Connection, Message 0 (identify ''alice'')]"

definition alice_then_bob :: server where
  "alice_then_bob = run init [Connection, Message 0 (identify ''alice''), Message 0 (identify ''bob'')]"

section \<open>Basic facts about the handlers\<close>

lemmas handler_defs =
  on_message_def on_identify_def on_send_def ws_send_def upd_sock_def identify_def send_to_def
  close_conn_def on_close_def ws_closed_def on_connection_def on_pong_def

lemmas frame_defs =
  error_frame_def identified_frame_def message_frame_def sent_frame_def offline_frame_def pong_frame_def

lemmas eval_defs =
  init_def handler_defs heartbeat_def beat_def terminate_def ws_ping_def new_socket_def Let_def

lemma stringify_frame [simp]:
  "stringify (error_frame t) = error_frame t"
  "stringify (identified_frame u) = identified_frame u"
  "stringify (sent_frame u) = sent_frame u"
  "stringify (offline_frame u) = offline_frame u"
  "stringify pong_frame = pong_frame"
  "stringify (message_frame p) = message_frame (stringify p)"
  by (simp_all add: frame_defs)

lemma stringify_plain: "plain_numbers p \<Longrightarrow> stringify p = p"
proof (induction p)
  case (JArr xs)
  then show ?case by (simp add: map_idI)
next
  case (JObj ps)
  then show ?case by (auto intro!: map_idI simp: map_prod_def split: prod.splits)
qed (simp_all split: number.splits)

lemma run_append: "run s (xs @ ys) = run (run s xs) ys"
  by (induction xs arbitrary: s) simp_all

lemma on_message_frame:
  "wss_clients (on_message s ws d) = wss_clients s"
  "next_conn (on_message s ws d) = next_conn s"
  "isAlive (socks (on_message s ws d) c) = isAlive (socks s c)"
  "readyState (socks (on_message s ws d) c) = readyState (socks s c)"
  "pings (socks (on_message s ws d) c) = pings (socks s c)"
  by (simp_all add: on_message_def on_identify_def on_send_def ws_send_def upd_sock_def Let_def
      split: parsed.splits option.splits)

lemma userId_on_message_other:
  "c \<noteq> ws \<Longrightarrow> userId (socks (on_message s ws d) c) = userId (socks s c)"
  by (simp add: on_message_def on_identify_def on_send_def ws_send_def upd_sock_def Let_def
      split: parsed.splits option.splits)

lemma userId_on_message_keeps:
  "userId (socks s c) \<noteq> None \<Longrightarrow> userId (socks (on_message s ws d) c) \<noteq> None"
  by (cases "c = ws")
    (auto simp add: on_message_def on_identify_def on_send_def ws_send_def upd_sock_def Let_def
      split: parsed.splits option.splits)

lemma close_conn_other: "clients s u = Some b \<Longrightarrow> a \<noteq> b \<Longrightarrow> clients (close_conn s a) u = Some b"
  by (auto simp add: close_conn_def on_close_def ws_closed_def upd_sock_def split: option.splits)

subsection \<open>The heartbeat visits each connection once\<close>

lemma beat_eq: "beat s ws = s\<lparr>socks := (socks s)(ws := beat_sock (socks s ws))\<rparr>"
  by (simp add: beat_def beat_sock_def terminate_def ws_ping_def upd_sock_def)

lemma for_each_other:
  "clients (for_each s xs) = clients s \<and> wss_clients (for_each s xs) = wss_clients s
   \<and> next_conn (for_each s xs) = next_conn s"
  by (induction xs arbitrary: s) (simp_all add: beat_eq)

lemma socks_for_each_notin: "c \<notin> set xs \<Longrightarrow> socks (for_each s xs) c = socks s c"
  by (induction xs arbitrary: s) (simp_all add: beat_eq)

lemma socks_for_each_in:
  "distinct xs \<Longrightarrow> c \<in> set xs \<Longrightarrow> socks (for_each s xs) c = beat_sock (socks s c)"
proof (induction xs arbitrary: s)
  case Nil
  then show ?case by simp
next
  case (Cons x xs)
  show ?case
  proof (cases "c = x")
    case True
    with Cons.prems have "c \<notin> set xs" by simp
    then show ?thesis using True by (simp add: socks_for_each_notin beat_eq)
  next
    case False
    with Cons.prems have "c \<in> set xs" "distinct xs" by simp_all
    then show ?thesis using Cons.IH [of "beat s x"] False by (simp add: beat_eq)
  qed
qed

lemma userId_beat_sock: "userId (beat_sock k) = userId k"
  by (simp add: beat_sock_def)

lemma userId_for_each: "userId (socks (for_each s xs) c) = userId (socks s c)"
  by (induction xs arbitrary: s) (simp_all add: beat_eq userId_beat_sock)

lemma userId_heartbeat: "userId (socks (heartbeat s) c) = userId (socks s c)"
  by (simp add: heartbeat_def userId_for_each)

lemma heartbeat_frame:
  "clients (heartbeat s) = clients s"
  "wss_clients (heartbeat s) = wss_clients s"
  "next_conn (heartbeat s) = next_conn s"
  by (simp_all add: heartbeat_def for_each_other)

subsection \<open>The invariant\<close>

lemma inv_init: "server_inv init"
  by (simp add: server_inv_def init_def new_socket_def)

lemma inv_on_message: "server_inv s \<Longrightarrow> server_inv (on_message s ws d)"
  by (auto simp add: server_inv_def on_message_def on_identify_def on_send_def ws_send_def
      upd_sock_def Let_def split: parsed.splits option.splits if_splits)

lemma inv_step: "server_inv s \<Longrightarrow> server_inv (step s e)"
proof (cases e)
  case Connection
  assume "server_inv s"
  then show ?thesis using Connection
    by (auto simp add: server_inv_def on_connection_def Let_def new_socket_def less_Suc_eq)
next
  case (Message ws d)
  assume "server_inv s"
  then show ?thesis using Message by (simp add: inv_on_message)
next
  case (Pong ws)
  assume "server_inv s"
  then show ?thesis using Pong by (auto simp add: server_inv_def on_pong_def upd_sock_def)
next
  case (Close ws)
  assume "server_inv s"
  then show ?thesis using Close
    by (auto simp add: server_inv_def close_conn_def on_close_def ws_closed_def upd_sock_def
        distinct_removeAll split: option.splits if_splits)
next
  case Tick
  assume "server_inv s"
  then show ?thesis using Tick
    by (auto simp add: server_inv_def heartbeat_def for_each_other userId_for_each)
qed

lemma inv_run: "server_inv s \<Longrightarrow> server_inv (run s es)"
  by (induction es arbitrary: s) (simp_all add: inv_step)

lemma registered_nonempty: "clients (run init es) u = Some d \<Longrightarrow> u \<noteq> []"
  using inv_run [OF inv_init, of es] by (auto simp add: server_inv_def)

lemma identified_nonempty: "userId (socks (run init es) c) = Some u \<Longrightarrow> u \<noteq> []"
  using inv_run [OF inv_init, of es] by (auto simp add: server_inv_def)

lemma socks_heartbeat:
  "server_inv s \<Longrightarrow> c \<in> set (wss_clients s) \<Longrightarrow> socks (heartbeat s) c = beat_sock (socks s c)"
  by (simp add: heartbeat_def server_inv_def socks_for_each_in)

subsection \<open>Who can touch a registry entry\<close>

lemma clients_step_between:
  assumes "clients s u = Some w" and "e \<noteq> Close w"
    and "registering u e = None \<or> registering u e = Some w"
  shows "clients (step s e) u = Some w"
proof (cases e)
  case Connection
  with assms show ?thesis by (simp add: on_connection_def Let_def)
next
  case (Message c d)
  show ?thesis
  proof (cases d)
    case (Value m)
    with assms Message show ?thesis
      by (auto simp add: on_message_def on_identify_def on_send_def ws_send_def upd_sock_def Let_def
          split: option.splits if_splits)
  qed (use assms Message in \<open>simp_all add: on_message_def ws_send_def upd_sock_def\<close>)
next
  case (Pong c)
  with assms show ?thesis by (simp add: on_pong_def upd_sock_def)
next
  case (Close c)
  with assms show ?thesis by (simp add: close_conn_other)
next
  case Tick
  with assms show ?thesis by (simp add: heartbeat_frame)
qed

lemma clients_run_between:
  "clients s u = Some w
   \<Longrightarrow> list_all (\<lambda>e. e \<noteq> Close w \<and> (registering u e = None \<or> registering u e = Some w)) es
   \<Longrightarrow> clients (run s es) u = Some w"
  by (induction es arbitrary: s) (simp_all add: clients_step_between)



subsection \<open>The sample runs, evaluated\<close>

lemma two_conns_eval:
  "clients two_conns = Map.empty"
  "socks two_conns = (\<lambda>c. new_socket)"
  "wss_clients two_conns = [0, 1]"
  by (simp_all add: two_conns_def init_def handler_defs new_socket_def Let_def fun_eq_iff)

lemma bob_online_eval:
  "clients bob_online = [''bob'' \<mapsto> 1]"
  "socks bob_online 0 = new_socket"
  "socks bob_online (Suc 0) = new_socket\<lparr>userId := Some ''bob'', sent := [identified_frame ''bob'']\<rparr>"
  "wss_clients bob_online = [0, 1]"
  by (simp_all add: bob_online_def init_def handler_defs new_socket_def Let_def)

lemma bob_terminated_eval:
  "clients bob_terminated = [''bob'' \<mapsto> 1]"
  "socks bob_terminated 0 = new_socket\<lparr>isAlive := False, readyState := CLOSING, pings := 1\<rparr>"
  "socks bob_terminated (Suc 0) = new_socket\<lparr>userId := Some ''bob'', isAlive := False,
     readyState := CLOSING, sent := [identified_frame ''bob''], pings := 1\<rparr>"
  by (simp_all add: bob_terminated_def eval_defs)

lemma alice_identified_eval:
  "clients alice_identified = [''alice'' \<mapsto> 0]"
  "socks alice_identified 0 = new_socket\<lparr>userId := Some ''alice'', sent := [identified_frame ''alice'']\<rparr>"
  "wss_clients alice_identified = [0]"
  "next_conn alice_identified = 1"
  by (simp_all add: alice_identified_def init_def handler_defs new_socket_def Let_def)

lemma alice_and_guest_eval:
  "clients alice_and_guest = [''alice'' \<mapsto> 0]"
  "socks alice_and_guest 0 = new_socket\<lparr>userId := Some ''alice'', sent := [identified_frame ''alice'']\<rparr>"
  "socks alice_and_guest (Suc 0) = new_socket"
  "wss_clients alice_and_guest = [0, 1]"
  "next_conn alice_and_guest = 2"
  by (simp_all add: alice_and_guest_def init_def handler_defs new_socket_def Let_def)

lemma alice_then_bob_eval:
  "clients alice_then_bob = [''alice'' \<mapsto> 0, ''bob'' \<mapsto> 0]"
  "socks alice_then_bob 0 = new_socket\<lparr>userId := Some ''bob'',
     sent := [identified_frame ''alice'', identified_frame ''bob'']\<rparr>"
  "wss_clients alice_then_bob = [0]"
  by (simp_all add: alice_then_bob_def init_def handler_defs new_socket_def Let_def)

section \<open>The guarded unregister\<close>

text \<open>
  C1. Connection \<open>a\<close> identifies as \<open>u\<close>, then a different connection \<open>b\<close> identifies as
  \<open>u\<close>: the registry maps \<open>u\<close> to \<open>b\<close>. Closing \<open>a\<close> leaves that entry in place, at once
  or after any further events \<open>es\<close> in which \<open>b\<close> does not close and nobody else
  registers \<open>u\<close>. (An identify frame registers only a non-empty userId.)
\<close>

theorem guarded_unregister:
  assumes "u \<noteq> []" and "a \<noteq> b"
    and "list_all (\<lambda>e. e \<noteq> Close b \<and> (registering u e = None \<or> registering u e = Some b)) es"
  shows "clients (on_message (on_message s a (identify u)) b (identify u)) u = Some b
    \<and> clients (close_conn (on_message (on_message s a (identify u)) b (identify u)) a) u = Some b
    \<and> clients (close_conn (run (on_message (on_message s a (identify u)) b (identify u)) es) a) u = Some b"
proof -
  have r: "clients (on_message (on_message s a (identify u)) b (identify u)) u = Some b"
    using assms(1) by (simp add: handler_defs Let_def)
  from r assms(3)
  have "clients (run (on_message (on_message s a (identify u)) b (identify u)) es) u = Some b"
    by (rule clients_run_between)
  with r assms(2) show ?thesis by (simp add: close_conn_other)
qed

theorem guarded_unregister_witness:
  "list_all (\<lambda>e. e \<noteq> Close 1 \<and> (registering ''alice'' e = None \<or> registering ''alice'' e = Some 1))
      [Message 0 ping_frame, Tick, Pong 1]
   \<and> clients (on_message (on_message two_conns 0 (identify ''alice'')) 1 (identify ''alice'')) ''alice'' = Some 1
   \<and> clients (close_conn (on_message (on_message two_conns 0 (identify ''alice'')) 1 (identify ''alice'')) 0)
       ''alice'' = Some 1
   \<and> clients (close_conn (run (on_message (on_message two_conns 0 (identify ''alice'')) 1 (identify ''alice''))
         [Message 0 ping_frame, Tick, Pong 1]) 0) ''alice'' = Some 1"
  using guarded_unregister [of "''alice''" 0 1 "[Message 0 ping_frame, Tick, Pong 1]" two_conns]
  by (simp add: ping_frame_def)

section \<open>Relaying\<close>

text \<open>
  C2, as amended. In a reachable state where \<open>u\<close> is registered to the open connection
  \<open>d\<close>, a send frame for \<open>u\<close> received from any connection \<open>ws\<close> (identified or not) whose
  payload \<open>p\<close> is truthy appends exactly one message frame to the log of \<open>d\<close> and exactly
  one sent frame for \<open>u\<close> to the log of \<open>ws\<close>; no other log, no other field of any
  connection and no registry entry changes. The message frame carries \<open>p\<close> as
  \<^verbatim>\<open>JSON.stringify\<close> writes it, which is \<open>p\<close> itself when every number in \<open>p\<close> is finite
  and none is \<^verbatim>\<open>-0\<close>.
\<close>

theorem send_delivers_once:
  assumes "mtype m = Some ''send''" and "mto m = Some u" and "mpayload m = Some p"
    and "clients (run init es) u = Some d"
    and "readyState (socks (run init es) d) = OPEN"
    and "truthy p"
  shows "socks (on_message (run init es) ws (Value m)) c =
      (socks (run init es) c)\<lparr>sent := sent (socks (run init es) c)
          @ (if c = d then [message_frame (stringify p)] else [])
          @ (if c = ws then [sent_frame u] else [])\<rparr>
    \<and> clients (on_message (run init es) ws (Value m)) = clients (run init es)
    \<and> (plain_numbers p \<longrightarrow> stringify p = p)"
proof -
  from assms(4) have "u \<noteq> []" by (rule registered_nonempty)
  with assms show ?thesis by (simp add: handler_defs stringify_plain)
qed

theorem send_delivers_once_witness:
  "clients bob_online ''bob'' = Some 1
   \<and> readyState (socks bob_online 1) = OPEN
   \<and> truthy sample_payload
   \<and> plain_numbers sample_payload
   \<and> sent (socks (on_message bob_online 0 (send_to ''bob'' sample_payload)) 1)
       = [identified_frame ''bob'', message_frame sample_payload]
   \<and> sent (socks (on_message bob_online 0 (send_to ''bob'' sample_payload)) 0) = [sent_frame ''bob'']
   \<and> sent (socks (on_message bob_online 1 (send_to ''bob'' sample_payload)) 1)
       = [identified_frame ''bob'', message_frame sample_payload, sent_frame ''bob'']
   \<and> truthy (JArr [JNum Infinity, JNum NegZero])
   \<and> sent (socks (on_message bob_online 0 (send_to ''bob'' (JArr [JNum Infinity, JNum NegZero]))) 1)
       = [identified_frame ''bob'', message_frame (JArr [JNull, JNum (Finite 0 0)])]"
  using send_delivers_once [of "\<lparr>mtype = Some ''send'', muserId = None, mto = Some ''bob'',
        mpayload = Some sample_payload\<rparr>" "''bob''" sample_payload
      "[Connection, Connection, Message 1 (identify ''bob'')]" 1 0 1, folded bob_online_def]
    send_delivers_once [of "\<lparr>mtype = Some ''send'', muserId = None, mto = Some ''bob'',
        mpayload = Some sample_payload\<rparr>" "''bob''" sample_payload
      "[Connection, Connection, Message 1 (identify ''bob'')]" 1 0 0, folded bob_online_def]
    send_delivers_once [of "\<lparr>mtype = Some ''send'', muserId = None, mto = Some ''bob'',
        mpayload = Some sample_payload\<rparr>" "''bob''" sample_payload
      "[Connection, Connection, Message 1 (identify ''bob'')]" 1 1 1, folded bob_online_def]
    send_delivers_once [of "\<lparr>mtype = Some ''send'', muserId = None, mto = Some ''bob'',
        mpayload = Some (JArr [JNum Infinity, JNum NegZero])\<rparr>" "''bob''" "JArr [JNum Infinity, JNum NegZero]"
      "[Connection, Connection, Message 1 (identify ''bob'')]" 1 0 1, folded bob_online_def]
  by (simp add: bob_online_eval sample_payload_def new_socket_def send_to_def)

text \<open>
  The claim as written fails for a falsy payload: with bob registered and open, a send
  frame for bob whose payload is the empty string delivers nothing to bob, and the
  sender gets an error frame instead of a sent frame. It also fails for a payload that
  \<^verbatim>\<open>JSON.stringify\<close> does not write back: the payload \<^verbatim>\<open>1e400\<close>, parsed as Infinity, reaches
  bob as \<^verbatim>\<open>null\<close>.
\<close>

theorem send_empty_payload_counterexample:
  "clients bob_online ''bob'' = Some 1
   \<and> readyState (socks bob_online 1) = OPEN
   \<and> sent (socks (on_message bob_online 0 (send_to ''bob'' (JStr ''''))) 1) = sent (socks bob_online 1)
   \<and> message_frame (JStr '''') \<notin> set (sent (socks (on_message bob_online 0 (send_to ''bob'' (JStr ''''))) 1))
   \<and> sent (socks (on_message bob_online 0 (send_to ''bob'' (JStr ''''))) 0)
       = [error_frame ''send requires to and payload'']
   \<and> sent_frame ''bob'' \<notin> set (sent (socks (on_message bob_online 0 (send_to ''bob'' (JStr ''''))) 0))
   \<and> sent (socks (on_message bob_online 0 (send_to ''bob'' (JNum Infinity))) 1)
       = [identified_frame ''bob'', message_frame JNull]
   \<and> message_frame (JNum Infinity)
       \<notin> set (sent (socks (on_message bob_online 0 (send_to ''bob'' (JNum Infinity))) 1))"
  by (simp add: bob_online_eval handler_defs new_socket_def frame_defs)

text \<open>
  C3, as amended. For a non-empty \<open>u\<close> and a truthy payload, when \<open>u\<close> is not registered,
  or registered to a connection that is not open, a send frame for \<open>u\<close> appends exactly
  one offline frame for \<open>u\<close> to the sender's log and changes nothing else: no connection
  gets a message frame.
\<close>

theorem send_offline:
  assumes "mtype m = Some ''send''" and "mto m = Some u" and "mpayload m = Some p"
    and "u \<noteq> []" and "truthy p"
    and "case clients s u of None \<Rightarrow> True | Some d \<Rightarrow> readyState (socks s d) \<noteq> OPEN"
  shows "socks (on_message s ws (Value m))
      = (socks s)(ws := (socks s ws)\<lparr>sent := sent (socks s ws) @ [offline_frame u]\<rparr>)
    \<and> clients (on_message s ws (Value m)) = clients s"
  using assms by (auto simp add: handler_defs split: option.splits)

theorem send_offline_witness:
  "clients bob_online ''carol'' = None
   \<and> sent (socks (on_message bob_online 0 (send_to ''carol'' sample_payload)) 0) = [offline_frame ''carol'']
   \<and> sent (socks (on_message bob_online 0 (send_to ''carol'' sample_payload)) 1) = [identified_frame ''bob'']
   \<and> clients bob_terminated ''bob'' = Some 1
   \<and> readyState (socks bob_terminated 1) = CLOSING
   \<and> sent (socks (on_message bob_terminated 0 (send_to ''bob'' sample_payload)) 0) = [offline_frame ''bob'']
   \<and> sent (socks (on_message bob_terminated 0 (send_to ''bob'' sample_payload)) 1) = [identified_frame ''bob'']"
  using send_offline [of "\<lparr>mtype = Some ''send'', muserId = None, mto = Some ''carol'',
        mpayload = Some sample_payload\<rparr>" "''carol''" sample_payload bob_online 0]
    send_offline [of "\<lparr>mtype = Some ''send'', muserId = None, mto = Some ''bob'',
        mpayload = Some sample_payload\<rparr>" "''bob''" sample_payload bob_terminated 0]
  by (simp add: bob_online_eval bob_terminated_eval sample_payload_def new_socket_def send_to_def)

text \<open>
  The claim as written fails when a field is falsy: a send frame for the unregistered
  carol with payload 0, and a send frame for the (never registered) empty userId, are
  each answered with an error frame and no offline frame.
\<close>

theorem send_falsy_fields_counterexample:
  "clients bob_online ''carol'' = None
   \<and> sent (socks (on_message bob_online 0 (send_to ''carol'' (JNum (Finite 0 0)))) 0)
       = [error_frame ''send requires to and payload'']
   \<and> offline_frame ''carol'' \<notin> set (sent (socks (on_message bob_online 0 (send_to ''carol'' (JNum (Finite 0 0)))) 0))
   \<and> clients bob_online [] = None
   \<and> sent (socks (on_message bob_online 0 (send_to [] sample_payload)) 0)
       = [error_frame ''send requires to and payload'']
   \<and> offline_frame [] \<notin> set (sent (socks (on_message bob_online 0 (send_to [] sample_payload)) 0))"
  by (simp add: bob_online_eval handler_defs new_socket_def frame_defs)

section \<open>The protocol state of a connection\<close>

lemma step_keeps_identified:
  assumes "c < next_conn s" and "userId (socks s c) \<noteq> None"
  shows "c < next_conn (step s e) \<and> userId (socks (step s e) c) \<noteq> None"
proof (cases e)
  case Connection
  with assms show ?thesis by (simp add: on_connection_def Let_def)
next
  case (Message ws d)
  with assms userId_on_message_keeps [of s c ws d] show ?thesis by (simp add: on_message_frame)
next
  case (Pong ws)
  with assms show ?thesis by (auto simp add: on_pong_def upd_sock_def)
next
  case (Close ws)
  with assms show ?thesis
    by (auto simp add: close_conn_def on_close_def ws_closed_def upd_sock_def split: option.splits)
next
  case Tick
  with assms show ?thesis by (simp add: heartbeat_frame userId_heartbeat)
qed

lemma run_keeps_identified:
  "c < next_conn s \<Longrightarrow> userId (socks s c) \<noteq> None \<Longrightarrow> userId (socks (run s es) c) \<noteq> None"
proof (induction es arbitrary: s)
  case Nil
  then show ?case by simp
next
  case (Cons e es)
  from step_keeps_identified [OF Cons.prems, of e] Cons.IH [of "step s e"]
  show ?case by simp
qed

text \<open>
  C4, as amended. A connection \<open>c\<close> that is Identified(\<open>u\<close>) never goes back to
  Unidentified, whatever events follow. A frame it receives changes its userId only when
  it is an identify frame with a non-empty userId \<open>v\<close>: then the connection is rebound to
  \<open>v\<close> and the registry maps \<open>v\<close> to it. Every other frame leaves it Identified(\<open>u\<close>) and
  the registry as it was, and a frame received by another connection leaves it
  Identified(\<open>u\<close>).
\<close>

theorem identify_rebinds:
  assumes "c < next_conn s" and "userId (socks s c) = Some u"
  shows "userId (socks (run s es) c) \<noteq> None
    \<and> userId (socks (on_message s c d) c) =
        (case d of
           Value m \<Rightarrow>
             if mtype m = Some ''identify'' \<and> muserId m \<noteq> None \<and> muserId m \<noteq> Some []
             then muserId m else Some u
         | _ \<Rightarrow> Some u)
    \<and> clients (on_message s c d) =
        (case d of
           Value m \<Rightarrow>
             (case muserId m of
                Some v \<Rightarrow>
                  if mtype m = Some ''identify'' \<and> v \<noteq> [] then (clients s)(v \<mapsto> c) else clients s
              | None \<Rightarrow> clients s)
         | _ \<Rightarrow> clients s)
    \<and> (ws \<noteq> c \<longrightarrow> userId (socks (on_message s ws d) c) = Some u)"
proof -
  have "userId (socks (run s es) c) \<noteq> None"
    using assms by (simp add: run_keeps_identified)
  moreover have "userId (socks (on_message s c d) c) =
        (case d of
           Value m \<Rightarrow>
             if mtype m = Some ''identify'' \<and> muserId m \<noteq> None \<and> muserId m \<noteq> Some []
             then muserId m else Some u
         | _ \<Rightarrow> Some u)"
    using assms(2)
    by (simp add: on_message_def on_identify_def on_send_def ws_send_def upd_sock_def Let_def
        split: parsed.splits option.splits)
  moreover have "clients (on_message s c d) =
        (case d of
           Value m \<Rightarrow>
             (case muserId m of
                Some v \<Rightarrow>
                  if mtype m = Some ''identify'' \<and> v \<noteq> [] then (clients s)(v \<mapsto> c) else clients s
              | None \<Rightarrow> clients s)
         | _ \<Rightarrow> clients s)"
    by (simp add: on_message_def on_identify_def on_send_def ws_send_def upd_sock_def Let_def
        split: parsed.splits option.splits)
  moreover have "ws \<noteq> c \<longrightarrow> userId (socks (on_message s ws d) c) = Some u"
    using assms(2) by (simp add: userId_on_message_other)
  ultimately show ?thesis by simp
qed

theorem identify_rebinds_witness:
  "0 < next_conn alice_and_guest
   \<and> userId (socks alice_and_guest 0) = Some ''alice''
   \<and> userId (socks (run alice_and_guest [Message 0 (identify ''bob''), Tick, Close 0]) 0) \<noteq> None
   \<and> userId (socks (on_message alice_and_guest 0 (identify ''bob'')) 0) = Some ''bob''
   \<and> clients (on_message alice_and_guest 0 (identify ''bob'')) = [''alice'' \<mapsto> 0, ''bob'' \<mapsto> 0]
   \<and> userId (socks (on_message alice_and_guest 0 ping_frame) 0) = Some ''alice''
   \<and> clients (on_message alice_and_guest 0 ping_frame) = [''alice'' \<mapsto> 0]
   \<and> userId (socks (on_message alice_and_guest 1 (identify ''bob'')) 0) = Some ''alice''"
  using identify_rebinds [of 0 alice_and_guest "''alice''"
      "[Message 0 (identify ''bob''), Tick, Close 0]" "identify ''bob''" 1]
    identify_rebinds [of 0 alice_and_guest "''alice''" "[]" ping_frame 1]
  by (simp add: alice_and_guest_eval new_socket_def identify_def ping_frame_def)

text \<open>
  The claim as written fails: a connection that is Identified(alice) and receives an
  identify frame for bob becomes Identified(bob) and is registered under bob.
\<close>

theorem rebind_counterexample:
  "userId (socks alice_identified 0) = Some ''alice''
   \<and> userId (socks (on_message alice_identified 0 (identify ''bob'')) 0) = Some ''bob''
   \<and> clients (on_message alice_identified 0 (identify ''bob'')) ''bob'' = Some 0"
  by (simp add: alice_identified_eval handler_defs new_socket_def)

section \<open>Closing a connection\<close>

text \<open>
  C5, as amended. When a connection \<open>c\<close> closes in a reachable state where it is
  Identified(\<open>u\<close>) and the registry entry of \<open>u\<close> stores \<open>c\<close>, that entry is removed.
\<close>

theorem close_removes_current:
  assumes "userId (socks (run init es) c) = Some u"
    and "clients (run init es) u = Some c"
  shows "clients (close_conn (run init es) c) u = None"
proof -
  from assms(1) have "u \<noteq> []" by (rule identified_nonempty)
  with assms show ?thesis by (simp add: close_conn_def on_close_def ws_closed_def upd_sock_def)
qed

theorem close_removes_current_witness:
  "userId (socks alice_identified 0) = Some ''alice''
   \<and> clients alice_identified ''alice'' = Some 0
   \<and> clients (close_conn alice_identified 0) ''alice'' = None"
  using close_removes_current [of "[Connection, Message 0 (identify ''alice'')]" 0 "''alice''",
      folded alice_identified_def]
  by (simp add: alice_identified_eval new_socket_def)

text \<open>
  The claim as written fails: connection 0 identified as alice and then as bob; the
  entry of alice stores connection 0, and it is still there after connection 0 has
  closed.
\<close>

theorem stale_entry_counterexample:
  "clients alice_then_bob ''alice'' = Some 0
   \<and> clients (run alice_then_bob [Close 0]) ''alice'' = Some 0
   \<and> readyState (socks (run alice_then_bob [Close 0]) 0) = CLOSED"
  by (simp add: alice_then_bob_eval close_conn_def on_close_def ws_closed_def upd_sock_def new_socket_def)

section \<open>Rejected frames\<close>

text \<open>
  C6. An Unidentified connection that receives an identify frame whose userId is absent
  or the empty string stays Unidentified; the handler appends one error frame to the
  sender's log, changes nothing else of any connection, and leaves the registry as it
  was.
\<close>

theorem identify_without_userId:
  assumes "mtype m = Some ''identify''"
    and "muserId m = None \<or> muserId m = Some []"
    and "userId (socks s ws) = None"
  shows "userId (socks (on_message s ws (Value m)) ws) = None
    \<and> socks (on_message s ws (Value m))
        = (socks s)(ws := (socks s ws)\<lparr>sent := sent (socks s ws) @ [error_frame ''identify requires userId'']\<rparr>)
    \<and> clients (on_message s ws (Value m)) = clients s"
  using assms by (auto simp add: on_message_def on_identify_def ws_send_def upd_sock_def)

theorem identify_without_userId_witness:
  "userId (socks two_conns 0) = None
   \<and> userId (socks (on_message two_conns 0
        (Value \<lparr>mtype = Some ''identify'', muserId = None, mto = None, mpayload = None\<rparr>)) 0) = None
   \<and> sent (socks (on_message two_conns 0
        (Value \<lparr>mtype = Some ''identify'', muserId = None, mto = None, mpayload = None\<rparr>)) 0)
       = [error_frame ''identify requires userId'']
   \<and> clients (on_message two_conns 0
        (Value \<lparr>mtype = Some ''identify'', muserId = None, mto = None, mpayload = None\<rparr>)) = Map.empty
   \<and> userId (socks (on_message two_conns 0 (identify [])) 0) = None
   \<and> sent (socks (on_message two_conns 0 (identify [])) 0) = [error_frame ''identify requires userId'']
   \<and> clients (on_message two_conns 0 (identify [])) = Map.empty"
  using identify_without_userId
      [of "\<lparr>mtype = Some ''identify'', muserId = None, mto = None, mpayload = None\<rparr>" two_conns 0]
    identify_without_userId
      [of "\<lparr>mtype = Some ''identify'', muserId = Some [], mto = None, mpayload = None\<rparr>" two_conns 0]
  by (simp add: two_conns_eval new_socket_def identify_def)

text \<open>
  C7. A data frame that is not well-formed JSON makes the handler append exactly one
  error frame with message "invalid JSON" to the sender's log. Nothing else changes:
  the sender's readyState (an open connection stays open) and protocol state, every
  other connection, the registry and \<^verbatim>\<open>wss.clients\<close> are as before.
\<close>

theorem invalid_json_reported:
  "socks (on_message s ws SyntaxError)
      = (socks s)(ws := (socks s ws)\<lparr>sent := sent (socks s ws) @ [error_frame ''invalid JSON'']\<rparr>)
   \<and> readyState (socks (on_message s ws SyntaxError) ws) = readyState (socks s ws)
   \<and> userId (socks (on_message s ws SyntaxError) ws) = userId (socks s ws)
   \<and> clients (on_message s ws SyntaxError) = clients s
   \<and> wss_clients (on_message s ws SyntaxError) = wss_clients s"
  by (simp add: on_message_def ws_send_def upd_sock_def)

section \<open>The heartbeat\<close>

lemma awaiting_step:
  assumes "awaiting c s" and "quiet c e"
  shows "awaiting c (step s e)"
proof -
  from assms(1) have i: "server_inv (step s e)" by (simp add: awaiting_def inv_step)
  from assms(1) have lt: "c < next_conn s" by (simp add: awaiting_def server_inv_def)
  show ?thesis
  proof (cases e)
    case Connection
    with assms i lt show ?thesis by (simp add: awaiting_def on_connection_def Let_def)
  next
    case (Message ws d)
    with assms i show ?thesis by (simp add: awaiting_def on_message_frame)
  next
    case (Pong ws)
    with assms i show ?thesis by (simp add: awaiting_def on_pong_def upd_sock_def)
  next
    case (Close ws)
    with assms i show ?thesis
      by (simp add: awaiting_def close_conn_def on_close_def ws_closed_def upd_sock_def
          split: option.splits)
  next
    case Tick
    with assms show ?thesis by simp
  qed
qed

lemma awaiting_run: "awaiting c s \<Longrightarrow> list_all (quiet c) es \<Longrightarrow> awaiting c (run s es)"
  by (induction es arbitrary: s) (simp_all add: awaiting_step)

text \<open>
  C8. Let \<open>c\<close> be an open connection of a reachable state whose \<^verbatim>\<open>isAlive\<close> is set (it
  has just answered a probe, or has just connected). The next tick probes it. If no pong
  from \<open>c\<close> arrives (and \<open>c\<close> does not close) in the events \<open>es\<close> up to the tick after
  that, \<open>c\<close> is still open before that second tick and is terminated by it. Its close
  event then removes the registry entry of its userId, if that entry stores \<open>c\<close>, and
  takes \<open>c\<close> out of \<^verbatim>\<open>wss.clients\<close>.
\<close>

theorem unresponsive_terminated:
  assumes "c \<in> set (wss_clients (run init es0))"
    and "isAlive (socks (run init es0) c)"
    and "readyState (socks (run init es0) c) = OPEN"
    and "list_all (quiet c) es"
  shows "pings (socks (run init (es0 @ [Tick])) c) = Suc (pings (socks (run init es0) c))
    \<and> readyState (socks (run init (es0 @ [Tick] @ es)) c) = OPEN
    \<and> readyState (socks (run init (es0 @ [Tick] @ es @ [Tick])) c) = CLOSING
    \<and> (userId (socks (run init (es0 @ [Tick] @ es @ [Tick])) c) = Some u
          \<and> clients (run init (es0 @ [Tick] @ es @ [Tick])) u = Some c
        \<longrightarrow> clients (run init (es0 @ [Tick] @ es @ [Tick, Close c])) u = None)
    \<and> readyState (socks (run init (es0 @ [Tick] @ es @ [Tick, Close c])) c) = CLOSED
    \<and> c \<notin> set (wss_clients (run init (es0 @ [Tick] @ es @ [Tick, Close c])))"
proof -
  define s0 where "s0 = run init es0"
  define s1 where "s1 = heartbeat s0"
  define s2 where "s2 = run s1 es"
  define s3 where "s3 = heartbeat s2"
  have i0: "server_inv s0" unfolding s0_def by (rule inv_run [OF inv_init])
  have k1: "socks s1 c = beat_sock (socks s0 c)"
    unfolding s1_def using i0 assms(1) by (simp add: socks_heartbeat s0_def)
  have i1: "server_inv s1" using inv_step [OF i0, of Tick] by (simp add: s1_def)
  have a1: "awaiting c s1"
    using i1 assms(1-3) k1 by (simp add: awaiting_def s1_def heartbeat_frame s0_def beat_sock_def)
  have a2: "awaiting c s2" unfolding s2_def using a1 assms(4) by (rule awaiting_run)
  then have i2: "server_inv s2" and m2: "c \<in> set (wss_clients s2)" by (simp_all add: awaiting_def)
  have k3: "socks s3 c = beat_sock (socks s2 c)"
    unfolding s3_def using i2 m2 by (rule socks_heartbeat)
  have i3: "server_inv s3" using inv_step [OF i2, of Tick] by (simp add: s3_def)
  have m3: "c \<in> set (wss_clients s3)" using m2 by (simp add: s3_def heartbeat_frame)
  have r1: "run init (es0 @ [Tick]) = s1" by (simp add: run_append s0_def s1_def)
  have r2: "run init (es0 @ [Tick] @ es) = s2" by (simp add: run_append s0_def s1_def s2_def)
  have r3: "run init (es0 @ [Tick] @ es @ [Tick]) = s3"
    by (simp add: run_append s0_def s1_def s2_def s3_def)
  have r4: "run init (es0 @ [Tick] @ es @ [Tick, Close c]) = close_conn s3 c"
    using m3 by (simp add: run_append s0_def s1_def s2_def s3_def)
  have p1: "pings (socks s1 c) = Suc (pings (socks s0 c))"
    using k1 assms(2) by (simp add: beat_sock_def s0_def)
  have p2: "readyState (socks s2 c) = OPEN" using a2 by (simp add: awaiting_def)
  have p3: "readyState (socks s3 c) = CLOSING"
    using k3 a2 by (simp add: awaiting_def beat_sock_def)
  have p4: "userId (socks s3 c) = Some u \<and> clients s3 u = Some c \<longrightarrow> clients (close_conn s3 c) u = None"
    using i3 by (auto simp add: server_inv_def close_conn_def on_close_def ws_closed_def upd_sock_def)
  have p5: "readyState (socks (close_conn s3 c) c) = CLOSED"
    by (simp add: close_conn_def on_close_def ws_closed_def upd_sock_def split: option.splits)
  have p6: "c \<notin> set (wss_clients (close_conn s3 c))"
    by (simp add: close_conn_def on_close_def ws_closed_def upd_sock_def split: option.splits)
  show ?thesis
    unfolding r1 r2 r3 r4 using p1 p2 p3 p4 p5 p6 by (simp add: s0_def)
qed

theorem unresponsive_terminated_witness:
  "1 \<in> set (wss_clients bob_online)
   \<and> isAlive (socks bob_online 1)
   \<and> readyState (socks bob_online 1) = OPEN
   \<and> list_all (quiet 1) [Message 0 (send_to ''bob'' sample_payload), Pong 0]
   \<and> readyState (socks (run bob_online [Tick, Message 0 (send_to ''bob'' sample_payload), Pong 0]) 1) = OPEN
   \<and> readyState (socks (run bob_online [Tick, Message 0 (send_to ''bob'' sample_payload), Pong 0, Tick]) 1)
       = CLOSING
   \<and> clients (run bob_online [Tick, Message 0 (send_to ''bob'' sample_payload), Pong 0, Tick]) ''bob'' = Some 1
   \<and> clients (run bob_online [Tick, Message 0 (send_to ''bob'' sample_payload), Pong 0, Tick, Close 1]) ''bob''
       = None
   \<and> wss_clients (run bob_online [Tick, Message 0 (send_to ''bob'' sample_payload), Pong 0, Tick, Close 1])
       = [0]"
  using unresponsive_terminated [of 1 "[Connection, Connection, Message 1 (identify ''bob'')]"
      "[Message 0 (send_to ''bob'' sample_payload), Pong 0]" "''bob''"]
  by (simp add: bob_online_def eval_defs sample_payload_def)

section \<open>The key directory\<close>

text \<open>
  For a name that \<^verbatim>\<open>Object.prototype\<close> does not define, the lookup answers 404 while no
  key is stored, and 200 with the userId and the key once a registration has stored one.
\<close>

lemma get_key_ordinary:
  assumes "u \<notin> set prototype_functions" and "u \<noteq> ''__proto__''" and "u \<noteq> []" and "k \<noteq> []"
  shows "get_key Map.empty u = Response 404 (JObj [(''error'', JStr ''not found'')])"
    and "get_key (fst (post_register publicKeys \<lparr>body_userId = Some u, body_publicKey = Some k\<rparr>)) u
      = Response 200 (JObj [(''userId'', JStr u), (''publicKey'', JStr k)])"
  using assms by (auto simp add: get_key_def get_property_def post_register_def set_property_def)

text \<open>
  C9. With no key stored at all, \<^verbatim>\<open>GET /keys/toString\<close> is answered 200 with the body
  \<^verbatim>\<open>{"userId":"toString"}\<close>, not 404: the lookup finds the function that the object
  inherits from \<^verbatim>\<open>Object.prototype\<close>.
\<close>

theorem get_key_inherited_property:
  "get_key Map.empty ''toString'' = Response 200 (JObj [(''userId'', JStr ''toString'')])"
  by (simp add: get_key_def get_property_def prototype_functions_def)

section \<open>One connection under several userIds\<close>



end
